theory Spec2Isabelle
  imports Main
begin

section \<open>Python strings and lists\<close>

text \<open>
  A Python \<^verbatim>\<open>str\<close> is a sequence of Unicode code points, and \<^verbatim>\<open>len\<close>, iteration,
  slicing and comparison of one-character strings all work on code points.  A string is
  therefore a list of code points; a code point is a natural number (Python's are those
  up to 0x10FFFF, so everything proved for all lists holds for all Python strings).
\<close>

type_synonym codepoint = nat
type_synonym str = "codepoint list"

text \<open>An ASCII literal of the source, as its code points.\<close>

definition lit :: "string \<Rightarrow> str" where
  "lit s = map of_char s"

definition COMMA :: codepoint where "COMMA = 44"
definition PERIOD :: codepoint where "PERIOD = 46"
definition SPACE :: codepoint where "SPACE = 32"
definition UNDERSCORE :: codepoint where "UNDERSCORE = 95"
definition NEWLINE :: codepoint where "NEWLINE = 10"

text \<open>
  \<^verbatim>\<open>text.replace(old, new)\<close> where \<^verbatim>\<open>old\<close> is a single character: every occurrence of
  the character is replaced by \<^verbatim>\<open>new\<close>, the other characters are kept in order.  Every
  call of \<^verbatim>\<open>replace\<close> in the modelled functions has a one-character pattern.
\<close>

definition replace_char :: "codepoint \<Rightarrow> str \<Rightarrow> str \<Rightarrow> str" where
  "replace_char old new text = concat (map (\<lambda>c. if c = old then new else [c]) text)"

text \<open>
  \<^verbatim>\<open>str.strip()\<close> removes leading and trailing whitespace.  The whitespace characters
  are those of CPython's \<^verbatim>\<open>str.isspace\<close>.
\<close>

definition is_space :: "codepoint \<Rightarrow> bool" where
  "is_space c \<longleftrightarrow>
     (9 \<le> c \<and> c \<le> 13) \<or> (28 \<le> c \<and> c \<le> 32) \<or> c = 133 \<or> c = 160 \<or> c = 5760 \<or>
     (8192 \<le> c \<and> c \<le> 8202) \<or> c = 8232 \<or> c = 8233 \<or> c = 8239 \<or> c = 8287 \<or> c = 12288"

definition strip :: "str \<Rightarrow> str" where
  "strip s = rev (dropWhile is_space (rev (dropWhile is_space s)))"

text \<open>\<^verbatim>\<open>s.startswith(p)\<close>.\<close>

definition startswith :: "str \<Rightarrow> str \<Rightarrow> bool" where
  "startswith s p \<longleftrightarrow> take (length p) s = p"

text \<open>
  \<^verbatim>\<open>s.split(sep)\<close> with a one-character separator: the pieces between the separators,
  empty pieces included; the empty string gives one empty piece.
\<close>

fun split_on :: "codepoint \<Rightarrow> str \<Rightarrow> str list" where
  "split_on sep [] = [[]]"
| "split_on sep (c # cs) =
     (if c = sep then [] # split_on sep cs
      else (case split_on sep cs of
              [] \<Rightarrow> [[c]]
            | p # ps \<Rightarrow> (c # p) # ps))"

text \<open>
  A slice \<^verbatim>\<open>xs[start:end]\<close> with integer bounds: a negative bound counts from the end,
  and bounds are clamped to the list; an empty range gives the empty list.
\<close>

definition slice_bound :: "int \<Rightarrow> int \<Rightarrow> nat" where
  "slice_bound n i = (if i < 0 then nat (max 0 (i + n)) else nat (min i n))"

definition py_slice :: "'a list \<Rightarrow> int \<Rightarrow> int \<Rightarrow> 'a list" where
  "py_slice xs start end =
     (let n = int (length xs); s = slice_bound n start; e = slice_bound n end
      in take (e - s) (drop s xs))"

datatype py_error = ZeroDivisionError

section \<open>Punctuation cleaning\<close>

text \<open>
  \<^verbatim>\<open>clean_punctuation\<close> of \<^verbatim>\<open>create_lyrics_pptx.py\<close>; \<^verbatim>\<open>webapp/backend/main.py\<close> has the
  same body:
  \<^verbatim>\<open>return text.replace(',', '').replace('.', '')\<close>
\<close>

definition clean_punctuation :: "str \<Rightarrow> str" where
  "clean_punctuation text = replace_char PERIOD [] (replace_char COMMA [] text)"

text \<open>\<^verbatim>\<open>not line.strip()\<close>: the line is empty or all whitespace.\<close>

definition blank :: "str \<Rightarrow> bool" where
  "blank line \<longleftrightarrow> strip line = []"

text \<open>\<^verbatim>\<open>range(n)\<close>: the integers from 0 up to, not including, \<^verbatim>\<open>n\<close>; none when \<^verbatim>\<open>n \<le> 0\<close>.\<close>

definition py_range :: "int \<Rightarrow> int list" where
  "py_range n = map int [0..<nat n]"

section \<open>Layout from the line count\<close>

text \<open>
  The dictionary \<^verbatim>\<open>{'columns': c, 'font_size': f}\<close> returned by \<^verbatim>\<open>get_optimal_layout\<close>
  always has exactly these two keys: a record with the two fields.
\<close>

record layout =
  columns :: int
  font_size :: int

text \<open>\<^verbatim>\<open>get_optimal_layout\<close> of \<^verbatim>\<open>create_lyrics_pptx.py\<close>.\<close>

definition get_optimal_layout :: "'a list \<Rightarrow> layout" where
  "get_optimal_layout lines =
     (let line_count = int (length lines) in
      if line_count \<le> 15 then \<lparr>columns = 1, font_size = 22\<rparr>
      else if line_count \<le> 28 then \<lparr>columns = 2, font_size = 18\<rparr>
      else if line_count \<le> 42 then \<lparr>columns = 3, font_size = 16\<rparr>
      else if line_count \<le> 56 then \<lparr>columns = 4, font_size = 14\<rparr>
      else if line_count \<le> 72 then \<lparr>columns = 4, font_size = 12\<rparr>
      else \<lparr>columns = 5, font_size = 10\<rparr>)"

text \<open>\<^verbatim>\<open>get_optimal_layout\<close> of \<^verbatim>\<open>webapp/backend/main.py\<close>.\<close>

definition backend_get_optimal_layout :: "'a list \<Rightarrow> layout" where
  "backend_get_optimal_layout lines =
     (let line_count = int (length lines) in
      if line_count \<le> 15 then \<lparr>columns = 1, font_size = 22\<rparr>
      else if line_count \<le> 28 then \<lparr>columns = 2, font_size = 18\<rparr>
      else if line_count \<le> 42 then \<lparr>columns = 3, font_size = 16\<rparr>
      else if line_count \<le> 56 then \<lparr>columns = 4, font_size = 14\<rparr>
      else \<lparr>columns = 5, font_size = 10\<rparr>)"

section \<open>Columns\<close>

text \<open>
  \<^verbatim>\<open>split_into_columns\<close> of \<^verbatim>\<open>create_lyrics_pptx.py\<close>.  The floor division raises
  \<^verbatim>\<open>ZeroDivisionError\<close> when \<^verbatim>\<open>num_columns\<close> is 0; \<^verbatim>\<open>div\<close> on \<^typ>\<open>int\<close> rounds down
  as Python's \<^verbatim>\<open>//\<close> does.
\<close>

definition split_into_columns :: "'a list \<Rightarrow> int \<Rightarrow> py_error + 'a list list" where
  "split_into_columns lines num_columns =
     (if num_columns = 0 then Inl ZeroDivisionError
      else
        let lines_per_col = (int (length lines) + num_columns - 1) div num_columns
        in Inr (map (\<lambda>i. let start = i * lines_per_col; end = start + lines_per_col
                          in py_slice lines start end)
                    (py_range num_columns)))"

text \<open>
  The column split written inline in \<^verbatim>\<open>generate_pptx\<close> of \<^verbatim>\<open>webapp/backend/main.py\<close>:
  the same computation, with the column count taken from the backend's layout table (so
  it is never 0).
\<close>

definition generate_pptx_columns :: "'a list \<Rightarrow> 'a list list" where
  "generate_pptx_columns colored_lines =
     (let num_columns = columns (backend_get_optimal_layout colored_lines);
          lines_per_col = (int (length colored_lines) + num_columns - 1) div num_columns
      in map (\<lambda>i. let start = i * lines_per_col; end = start + lines_per_col
                   in py_slice colored_lines start end)
             (py_range num_columns))"

section \<open>Script detection\<close>

text \<open>
  \<^verbatim>\<open>is_hebrew\<close> of \<^verbatim>\<open>create_lyrics_pptx.py\<close>; \<^verbatim>\<open>webapp/backend/main.py\<close> has the same
  loop.  The comparison of one-character strings compares code points.
\<close>

fun is_hebrew :: "str \<Rightarrow> bool" where
  "is_hebrew [] = False"
| "is_hebrew (c # cs) = (if 0x0590 \<le> c \<and> c \<le> 0x05FF then True else is_hebrew cs)"

text \<open>\<^verbatim>\<open>is_hebrew_song\<close> of \<^verbatim>\<open>create_lyrics_pptx.py\<close>; \<^verbatim>\<open>lyrics_lines[:5]\<close> is \<^term>\<open>take 5\<close>.\<close>

definition is_hebrew_song :: "str \<Rightarrow> str list \<Rightarrow> bool" where
  "is_hebrew_song title lyrics_lines =
     (if is_hebrew title then True
      else
        let hebrew_lines = sum_list (map (\<lambda>line. (1::int)) (filter is_hebrew (take 5 lyrics_lines)))
        in hebrew_lines \<ge> 2)"

text \<open>
  The right-to-left flag of a slide: \<^verbatim>\<open>add_lyrics_slide\<close> of \<^verbatim>\<open>create_lyrics_pptx.py\<close>
  sets \<^verbatim>\<open>is_rtl = is_hebrew_song(title, lyrics_lines)\<close>, \<^verbatim>\<open>generate_pptx\<close> of
  \<^verbatim>\<open>webapp/backend/main.py\<close> sets \<^verbatim>\<open>is_rtl = is_hebrew(title)\<close>.
\<close>

definition add_lyrics_slide_is_rtl :: "str \<Rightarrow> str list \<Rightarrow> bool" where
  "add_lyrics_slide_is_rtl title lyrics_lines = is_hebrew_song title lyrics_lines"

definition generate_pptx_is_rtl :: "str \<Rightarrow> str list \<Rightarrow> bool" where
  "generate_pptx_is_rtl title lyrics_lines = is_hebrew title"

section \<open>Sections and their colors\<close>

datatype RGBColor = RGBColor nat nat nat

definition SECTION_COLORS :: "RGBColor list" where
  "SECTION_COLORS =
     [RGBColor 240 240 255,
      RGBColor 255 220 180,
      RGBColor 180 255 200,
      RGBColor 255 200 220,
      RGBColor 200 220 255,
      RGBColor 255 255 180]"

text \<open>
  \<^verbatim>\<open>split_into_sections\<close> of \<^verbatim>\<open>create_lyrics_pptx.py\<close>.  The loop carries the pair
  \<^verbatim>\<open>(sections, current_section)\<close>; \<open>sections_step\<close> is its body.
\<close>

definition sections_step :: "str list list \<times> str list \<Rightarrow> str \<Rightarrow> str list list \<times> str list" where
  "sections_step st line =
     (case st of (sections, current_section) \<Rightarrow>
        if strip line = [] then
          (if current_section \<noteq> [] then (sections @ [current_section], [])
           else (sections, current_section))
        else (sections, current_section @ [line]))"

definition split_into_sections :: "str list \<Rightarrow> str list list" where
  "split_into_sections lines =
     (case foldl sections_step ([], []) lines of (sections, current_section) \<Rightarrow>
        if current_section \<noteq> [] then sections @ [current_section] else sections)"

text \<open>
  The specification that \<open>split_into_sections\<close> is compared with: the maximal runs of
  non-blank lines, in order.  Blank lines are skipped; a run starts at a non-blank line
  and takes every line up to the next blank one.
\<close>

function maximal_runs_spec :: "str list \<Rightarrow> str list list" where
  "maximal_runs_spec [] = []"
| "maximal_runs_spec (l # ls) =
     (if blank l then maximal_runs_spec ls
      else (l # takeWhile (\<lambda>x. \<not> blank x) ls) # maximal_runs_spec (dropWhile (\<lambda>x. \<not> blank x) ls))"
  by pat_completeness auto
termination
  by (relation "measure length") (simp_all add: length_dropWhile_le less_Suc_eq_le)

text \<open>
  \<^verbatim>\<open>assign_section_colors\<close> of \<^verbatim>\<open>create_lyrics_pptx.py\<close>; the loop written inline in
  \<^verbatim>\<open>generate_pptx\<close> of \<^verbatim>\<open>webapp/backend/main.py\<close> has the same body.  \<open>colors_step\<close> is
  the body of the loop over \<^verbatim>\<open>enumerate(sections)\<close>, with \<open>n\<close> for \<^verbatim>\<open>len(sections)\<close>;
  the index \<^verbatim>\<open>i % len(SECTION_COLORS)\<close> is always in range.
\<close>

definition colors_step ::
  "nat \<Rightarrow> (str \<times> RGBColor) list \<Rightarrow> nat \<times> str list \<Rightarrow> (str \<times> RGBColor) list" where
  "colors_step n result p =
     (case p of (i, section) \<Rightarrow>
        let color = SECTION_COLORS ! (i mod length SECTION_COLORS);
            result' = result @ map (\<lambda>line. (line, color)) section
        in if int i < int n - 1 then result' @ [([], SECTION_COLORS ! 0)] else result')"

definition assign_section_colors :: "str list list \<Rightarrow> (str \<times> RGBColor) list" where
  "assign_section_colors sections =
     foldl (colors_step (length sections)) [] (enumerate 0 sections)"

section \<open>Parsing a lyrics file\<close>

text \<open>
  \<^verbatim>\<open>parse_lyrics_file\<close> of \<^verbatim>\<open>create_lyrics_pptx.py\<close>, as a function of the file's stem
  and of its decoded content.  \<open>parse_step\<close> is the body of the loop over the lines, on
  the state \<^verbatim>\<open>(title, lyrics_lines, found_title)\<close>; the two \<^verbatim>\<open>while\<close> loops pop blank
  lines from the front and from the back.
\<close>

definition parse_step :: "str \<times> str list \<times> bool \<Rightarrow> str \<Rightarrow> str \<times> str list \<times> bool" where
  "parse_step st line =
     (case st of (title, lyrics_lines, found_title) \<Rightarrow>
        if startswith line (lit ''# '') then (strip (drop 2 line), lyrics_lines, True)
        else (title, lyrics_lines @ [clean_punctuation line], found_title))"

definition parse_lyrics_file :: "str \<Rightarrow> str \<Rightarrow> str \<times> str list" where
  "parse_lyrics_file stem content =
     (let lines = split_on NEWLINE (strip content);
          title0 = replace_char UNDERSCORE (lit '' '') stem
      in case foldl parse_step (title0, [], False) lines of
           (title, lyrics_lines, found_title) \<Rightarrow>
             let lyrics_lines1 = dropWhile blank lyrics_lines;
                 lyrics_lines2 = rev (dropWhile blank (rev lyrics_lines1))
             in (title, lyrics_lines2))"

section \<open>File names\<close>

text \<open>
  \<^verbatim>\<open>sanitize_filename\<close> of \<^verbatim>\<open>extract_lyrics.py\<close>.  The character class of the regular
  expression holds \<^verbatim>\<open>< > : " / \ | ? *\<close>; \<^verbatim>\<open>re.sub\<close> with the empty replacement deletes
  every character of the class.
\<close>

definition INVALID_FILENAME_CHARS :: "codepoint list" where
  "INVALID_FILENAME_CHARS = [60, 62, 58, 34, 47, 92, 124, 63, 42]"

definition sanitize_filename :: "str \<Rightarrow> str" where
  "sanitize_filename name =
     (let name1 = filter (\<lambda>c. c \<notin> set INVALID_FILENAME_CHARS) name;
          name2 = replace_char SPACE (lit ''_'') name1
      in take 100 name2)"

section \<open>Properties\<close>

subsection \<open>Helper lemmas on strings\<close>

lemma replace_char_empty: "replace_char old [] s = filter (\<lambda>c. c \<noteq> old) s"
  unfolding replace_char_def by (induction s) simp_all

lemma clean_punctuation_filter:
  "clean_punctuation s = filter (\<lambda>c. c \<noteq> COMMA \<and> c \<noteq> PERIOD) s"
  unfolding clean_punctuation_def replace_char_empty by (simp add: conj_commute)

lemma clean_punctuation_set:
  "set (clean_punctuation s) = set s - {COMMA, PERIOD}"
  unfolding clean_punctuation_filter by auto

lemma replace_char_set: "set (replace_char old new s) \<subseteq> (set s - {old}) \<union> set new"
  unfolding replace_char_def by auto

text \<open>The deleted characters, read as ASCII: \<^verbatim>\<open>< > : " / \ | ? *\<close>.\<close>

lemma INVALID_FILENAME_CHARS_ascii:
  "INVALID_FILENAME_CHARS =
     map of_char [CHR ''<'', CHR ''>'', CHR '':'', CHR 0x22, CHR ''/'', CHR 0x5C, CHR ''|'',
                  CHR ''?'', CHR ''*'']"
  by (simp add: INVALID_FILENAME_CHARS_def)

subsection \<open>Helper lemmas on slices and columns\<close>

lemma py_slice_nonneg:
  assumes "0 \<le> s" "0 \<le> e"
  shows "py_slice xs s e = take (nat e - nat s) (drop (nat s) xs)"
proof -
  have sb: "slice_bound (int (length xs)) i = min (nat i) (length xs)" if "0 \<le> i" for i
    using that unfolding slice_bound_def by (simp add: min_def) linarith
  show ?thesis
  proof (cases "nat s < length xs")
    case True
    then show ?thesis
      unfolding py_slice_def Let_def sb[OF assms(1)] sb[OF assms(2)]
      by (cases "nat e \<le> length xs") (simp_all add: min_def)
  next
    case False
    then show ?thesis
      unfolding py_slice_def Let_def sb[OF assms(1)] sb[OF assms(2)]
      by simp
  qed
qed

lemma concat_chunks:
  "concat (map (\<lambda>i. take m (drop (i * m) xs)) [0..<k]) = take (k * m) xs"
proof (induction k)
  case 0
  then show ?case by simp
next
  case (Suc k)
  have "take (k * m) xs @ take m (drop (k * m) xs) = take (k * m + m) xs"
    by (simp add: take_add)
  with Suc show ?case by (simp add: add.commute)
qed

lemma chunk_slice:
  "py_slice xs (int i * int m) (int i * int m + int m) = take m (drop (i * m) xs)"
proof -
  have "py_slice xs (int i * int m) (int i * int m + int m)
        = take (nat (int i * int m + int m) - nat (int i * int m)) (drop (nat (int i * int m)) xs)"
    by (rule py_slice_nonneg) simp_all
  moreover have "nat (int i * int m) = i * m"
    by (simp add: nat_mult_distrib)
  moreover have "nat (int i * int m + int m) = i * m + m"
    by (simp add: nat_add_distrib nat_mult_distrib)
  ultimately show ?thesis by simp
qed

lemma columns_cover:
  assumes "1 \<le> k"
  shows "concat (map (\<lambda>i. let start = i * ((int (length xs) + k - 1) div k);
                               end = start + ((int (length xs) + k - 1) div k)
                           in py_slice xs start end) (py_range k)) = xs"
proof -
  define m where "m = nat ((int (length xs) + k - 1) div k)"
  have nonneg: "0 \<le> (int (length xs) + k - 1) div k"
    using assms by (simp add: pos_imp_zdiv_nonneg_iff)
  then have m: "(int (length xs) + k - 1) div k = int m"
    by (simp add: m_def)
  have "int (length xs) \<le> k * ((int (length xs) + k - 1) div k)"
  proof -
    have "int (length xs) + k - 1 = k * ((int (length xs) + k - 1) div k) + (int (length xs) + k - 1) mod k"
      by simp
    moreover have "(int (length xs) + k - 1) mod k < k"
      using assms by simp
    ultimately show ?thesis by linarith
  qed
  then have "int (length xs) \<le> int (nat k * m)"
    using assms by (simp add: m)
  then have cover: "length xs \<le> nat k * m"
    by linarith
  have "concat (map (\<lambda>i. let start = i * int m; end = start + int m
                           in py_slice xs start end) (py_range k))
        = concat (map (\<lambda>i. take m (drop (i * m) xs)) [0..<nat k])"
    unfolding py_range_def by (simp add: comp_def chunk_slice)
  also have "\<dots> = take (nat k * m) xs"
    by (rule concat_chunks)
  also have "\<dots> = xs"
    using cover by simp
  finally show ?thesis
    unfolding m .
qed

lemma backend_columns_pos: "1 \<le> columns (backend_get_optimal_layout xs)"
  unfolding backend_get_optimal_layout_def by (simp add: Let_def)

subsection \<open>Helper lemmas on script detection\<close>

lemma is_hebrew_iff: "is_hebrew t \<longleftrightarrow> (\<exists>c\<in>set t. 0x0590 \<le> c \<and> c \<le> 0x05FF)"
  by (induction t) auto


lemma is_hebrew_song_eq:
  "is_hebrew_song title lyrics_lines
     \<longleftrightarrow> is_hebrew title \<or> 2 \<le> length (filter is_hebrew (take 5 lyrics_lines))"
proof -
  have "sum_list (map (\<lambda>line. (1::int)) xs) = int (length xs)" for xs :: "str list"
    by (induction xs) simp_all
  then show ?thesis
    unfolding is_hebrew_song_def Let_def by auto
qed


lemma count_from_flags:
  "map P xs = map P ys \<Longrightarrow> length (filter P (take n xs)) = length (filter P (take n ys))"
proof (induction xs arbitrary: ys n)
  case Nil
  then show ?case by simp
next
  case (Cons x xs)
  then obtain y ys' where ys: "ys = y # ys'" and xy: "P x = P y" and rest: "map P xs = map P ys'"
    by (cases ys) auto
  show ?case
  proof (cases n)
    case 0
    then show ?thesis by simp
  next
    case (Suc m)
    then show ?thesis
      using Cons.IH[OF rest, of m] xy by (simp add: ys)
  qed
qed

subsection \<open>Helper lemmas on sections\<close>

lemma maximal_runs_nonempty: "[] \<notin> set (maximal_runs_spec ls)"
  by (induction ls rule: maximal_runs_spec.induct) simp_all

lemma filter_takeWhile_dropWhile:
  "filter P xs = takeWhile P xs @ filter P (dropWhile P xs)"
  by (induction xs) simp_all

lemma maximal_runs_concat: "concat (maximal_runs_spec ls) = filter (\<lambda>x. \<not> blank x) ls"
proof (induction ls rule: maximal_runs_spec.induct)
  case 1
  then show ?case by simp
next
  case (2 l ls)
  show ?case
  proof (cases "blank l")
    case True
    with 2 show ?thesis by simp
  next
    case False
    have "filter (\<lambda>x. \<not> blank x) ls
          = takeWhile (\<lambda>x. \<not> blank x) ls @ filter (\<lambda>x. \<not> blank x) (dropWhile (\<lambda>x. \<not> blank x) ls)"
      by (rule filter_takeWhile_dropWhile)
    with False 2 show ?thesis by simp
  qed
qed

lemma sections_loop:
  "(case foldl sections_step (ss, cur) lines of
      (sections, current_section) \<Rightarrow>
        if current_section \<noteq> [] then sections @ [current_section] else sections)
   = ss @ (if cur = [] then maximal_runs_spec lines
           else (cur @ takeWhile (\<lambda>x. \<not> blank x) lines)
                  # maximal_runs_spec (dropWhile (\<lambda>x. \<not> blank x) lines))"
proof (induction lines arbitrary: ss cur)
  case Nil
  then show ?case by simp
next
  case (Cons l ls)
  show ?case
  proof (cases "blank l")
    case True
    then have step: "sections_step (ss, cur) l = (if cur \<noteq> [] then (ss @ [cur], []) else (ss, cur))"
      by (simp add: sections_step_def blank_def)
    show ?thesis
      using True Cons.IH[of "ss @ [cur]" "[]"] Cons.IH[of ss "[]"]
      by (simp add: step)
  next
    case False
    then have step: "sections_step (ss, cur) l = (ss, cur @ [l])"
      by (simp add: sections_step_def blank_def)
    show ?thesis
      using False Cons.IH[of ss "cur @ [l]"]
      by (simp add: step)
  qed
qed

lemma split_into_sections_runs: "split_into_sections lines = maximal_runs_spec lines"
  unfolding split_into_sections_def using sections_loop[of "[]" "[]" lines] by simp

subsection \<open>Helper lemmas on section colors\<close>

lemma foldl_append_blocks: "foldl (\<lambda>acc x. acc @ g x) a xs = a @ concat (map g xs)"
  by (induction xs arbitrary: a) simp_all

lemma colors_step_append:
  "colors_step n result p =
     result @ (map (\<lambda>line. (line, SECTION_COLORS ! (fst p mod 6))) (snd p)
               @ (if Suc (fst p) < n then [([], SECTION_COLORS ! 0)] else []))"
proof -
  have "length SECTION_COLORS = 6" by (simp add: SECTION_COLORS_def)
  moreover have "(int (fst p) < int n - 1) = (Suc (fst p) < n)" by linarith
  ultimately show ?thesis
    unfolding colors_step_def Let_def by (simp add: case_prod_beta)
qed

lemma map_enumerate_index:
  "map f (enumerate 0 xs) = map (\<lambda>i. f (i, xs ! i)) [0..<length xs]"
  by (rule nth_equalityI) (simp_all add: nth_enumerate_eq)

subsection \<open>Helper lemmas on parsing\<close>

lemma parse_loop_lines:
  "fst (snd (foldl parse_step (t, acc, f) lines))
     = acc @ map clean_punctuation (filter (\<lambda>l. \<not> startswith l (lit ''# '')) lines)"
  by (induction lines arbitrary: t acc f) (simp_all add: parse_step_def)

lemma parse_lyrics_file_lines:
  "snd (parse_lyrics_file stem content)
     = rev (dropWhile blank (rev (dropWhile blank
         (map clean_punctuation
            (filter (\<lambda>l. \<not> startswith l (lit ''# '')) (split_on NEWLINE (strip content)))))))"
proof -
  obtain t ls f where st:
    "foldl parse_step (replace_char UNDERSCORE (lit '' '') stem, [], False)
       (split_on NEWLINE (strip content)) = (t, ls, f)"
    by (metis prod_cases3)
  have "ls = map clean_punctuation
            (filter (\<lambda>l. \<not> startswith l (lit ''# '')) (split_on NEWLINE (strip content)))"
    using parse_loop_lines[of "replace_char UNDERSCORE (lit '' '') stem" "[]" False
        "split_on NEWLINE (strip content)"]
    by (simp add: st)
  then show ?thesis
    unfolding parse_lyrics_file_def Let_def by (simp add: st)
qed

lemma trim_subset: "set (rev (dropWhile P (rev (dropWhile P xs)))) \<subseteq> set xs"
proof -
  have "set (rev (dropWhile P (rev (dropWhile P xs)))) \<subseteq> set (dropWhile P xs)"
    using set_dropWhileD[of _ P "rev (dropWhile P xs)"] by auto
  also have "\<dots> \<subseteq> set xs"
    using set_dropWhileD[of _ P xs] by auto
  finally show ?thesis .
qed

lemma trim_ends:
  assumes "rev (dropWhile P (rev (dropWhile P xs))) \<noteq> []"
  shows "\<not> P (hd (rev (dropWhile P (rev (dropWhile P xs)))))
         \<and> \<not> P (last (rev (dropWhile P (rev (dropWhile P xs)))))"
proof -
  let ?ys = "dropWhile P xs"
  let ?zs = "rev (dropWhile P (rev ?ys))"
  have nz: "dropWhile P (rev ?ys) \<noteq> []" using assms by simp
  have "rev (takeWhile P (rev ?ys) @ dropWhile P (rev ?ys)) = ?ys"
    by (simp only: takeWhile_dropWhile_id rev_rev_ident)
  then have split: "?ys = ?zs @ rev (takeWhile P (rev ?ys))"
    by (simp only: rev_append)
  have "?ys \<noteq> []"
  proof
    assume "?ys = []"
    then have "dropWhile P (rev ?ys) = []"
      by (simp only: rev.simps dropWhile.simps)
    with nz show False by contradiction
  qed
  then have "\<not> P (hd ?ys)" by (rule hd_dropWhile)
  moreover have "hd ?ys = hd ?zs"
    using assms split by (metis hd_append2)
  moreover have "\<not> P (hd (dropWhile P (rev ?ys)))" using nz by (rule hd_dropWhile)
  moreover have "last ?zs = hd (dropWhile P (rev ?ys))"
    using nz by (simp add: last_rev)
  ultimately show ?thesis by simp
qed

subsection \<open>Punctuation cleaning is idempotent\<close>

text \<open>
  Claim C5.  Cleaning punctuation twice gives the same string as cleaning it once, and a
  cleaned string contains neither a comma nor a period.
\<close>

theorem clean_punctuation_idempotent:
  "clean_punctuation (clean_punctuation t) = clean_punctuation t
   \<and> COMMA \<notin> set (clean_punctuation t) \<and> PERIOD \<notin> set (clean_punctuation t)"
  unfolding clean_punctuation_filter by simp

subsection \<open>Columns reproduce the lines\<close>

text \<open>
  Claim C1.  For a column count of at least 1, \<open>split_into_columns\<close> returns (it does
  not raise) exactly that many columns, and the columns concatenated in order are the
  original list of lines: nothing is added and nothing is dropped.  The split written
  inline in \<open>generate_pptx\<close>, whose column count comes from the layout table, reproduces
  its lines in the same way.
\<close>

theorem split_into_columns_concat:
  "(1 \<le> k \<longrightarrow>
      (\<exists>cols. split_into_columns lines k = Inr cols \<and> concat cols = lines
          \<and> int (length cols) = k))
   \<and> concat (generate_pptx_columns lines) = lines"
proof
  show "1 \<le> k \<longrightarrow>
      (\<exists>cols. split_into_columns lines k = Inr cols \<and> concat cols = lines
          \<and> int (length cols) = k)"
  proof
    assume k: "1 \<le> k"
    let ?cols = "map (\<lambda>i. let start = i * ((int (length lines) + k - 1) div k);
                               end = start + ((int (length lines) + k - 1) div k)
                           in py_slice lines start end) (py_range k)"
    have "split_into_columns lines k = Inr ?cols"
      using k unfolding split_into_columns_def Let_def by simp
    moreover have "concat ?cols = lines"
      using k by (rule columns_cover)
    moreover have "int (length ?cols) = k"
      using k by (simp add: py_range_def)
    ultimately show "\<exists>cols. split_into_columns lines k = Inr cols \<and> concat cols = lines
        \<and> int (length cols) = k"
      by blast
  qed
next
  show "concat (generate_pptx_columns lines) = lines"
    unfolding generate_pptx_columns_def
    using columns_cover[OF backend_columns_pos, of lines lines]
    by (simp add: Let_def)
qed

theorem split_into_columns_concat_witness:
  "(1::int) \<le> 3
   \<and> (\<exists>cols. split_into_columns [lit ''a'', lit ''b'', lit ''c'', lit ''d'', lit ''e'', lit ''f'', lit ''g''] 3 = Inr cols
         \<and> concat cols = [lit ''a'', lit ''b'', lit ''c'', lit ''d'', lit ''e'', lit ''f'', lit ''g'']
         \<and> int (length cols) = 3)"
  using split_into_columns_concat
    [of 3 "[lit ''a'', lit ''b'', lit ''c'', lit ''d'', lit ''e'', lit ''f'', lit ''g'']"]
  by simp

subsection \<open>The layout depends on the line count only\<close>

text \<open>
  Claim C2.  Two lists of lines of the same length get the same layout (columns and font
  size), whatever the lines contain; this holds for \<open>get_optimal_layout\<close> of
  \<open>create_lyrics_pptx.py\<close> and for the one of \<open>webapp/backend/main.py\<close>.
\<close>

theorem get_optimal_layout_length_only:
  "length lines1 = length lines2 \<Longrightarrow>
     get_optimal_layout lines1 = get_optimal_layout lines2
     \<and> backend_get_optimal_layout lines1 = backend_get_optimal_layout lines2"
  unfolding get_optimal_layout_def backend_get_optimal_layout_def by simp

theorem get_optimal_layout_length_only_witness:
  "length [lit ''la''] = length [lit ''di'']
   \<and> get_optimal_layout [lit ''la''] = get_optimal_layout [lit ''di'']
   \<and> backend_get_optimal_layout [lit ''la''] = backend_get_optimal_layout [lit ''di'']"
  using get_optimal_layout_length_only[of "[lit ''la'']" "[lit ''di'']"] by simp

subsection \<open>The two layout tables\<close>

text \<open>
  With 60 lines the table of \<open>create_lyrics_pptx.py\<close> gives 4 columns at font size 12 and
  the table of \<open>webapp/backend/main.py\<close> gives 5 columns at font size 10: the two
  implementations do not agree on every list.
\<close>

theorem layouts_differ_counterexample:
  "get_optimal_layout (replicate 60 (lit ''la'')) = \<lparr>columns = 4, font_size = 12\<rparr>
   \<and> backend_get_optimal_layout (replicate 60 (lit ''la'')) = \<lparr>columns = 5, font_size = 10\<rparr>
   \<and> get_optimal_layout (replicate 60 (lit ''la''))
       \<noteq> backend_get_optimal_layout (replicate 60 (lit ''la''))"
  unfolding get_optimal_layout_def backend_get_optimal_layout_def by simp

text \<open>
  Claim C3, as amended.  The two implementations of \<open>get_optimal_layout\<close> return equal
  layouts exactly for the lists of at most 56 or of more than 72 lines; for 57 to 72
  lines \<open>create_lyrics_pptx.py\<close> returns 4 columns at font size 12 and
  \<open>webapp/backend/main.py\<close> returns 5 columns at font size 10.
\<close>

theorem layouts_agree_iff:
  "(get_optimal_layout lines = backend_get_optimal_layout lines
      \<longleftrightarrow> length lines \<le> 56 \<or> 72 < length lines)
   \<and> (56 < length lines \<and> length lines \<le> 72 \<longrightarrow>
        get_optimal_layout lines = \<lparr>columns = 4, font_size = 12\<rparr>
        \<and> backend_get_optimal_layout lines = \<lparr>columns = 5, font_size = 10\<rparr>)"
  unfolding get_optimal_layout_def backend_get_optimal_layout_def Let_def by auto

theorem layouts_agree_iff_witness:
  "get_optimal_layout (replicate 40 (lit ''la'')) = backend_get_optimal_layout (replicate 40 (lit ''la''))
   \<and> get_optimal_layout (replicate 57 (lit ''la'')) = \<lparr>columns = 4, font_size = 12\<rparr>
   \<and> backend_get_optimal_layout (replicate 57 (lit ''la'')) = \<lparr>columns = 5, font_size = 10\<rparr>"
  using layouts_agree_iff[of "replicate 40 (lit ''la'')"]
    layouts_agree_iff[of "replicate 57 (lit ''la'')"]
  by simp

subsection \<open>The layout breakpoints are monotonic\<close>

text \<open>
  Claim C4.  When one list has at most as many lines as another, it gets at most as many
  columns and at least as large a font; this holds for both layout tables.
\<close>

theorem layout_monotonic:
  "length lines1 \<le> length lines2 \<Longrightarrow>
     columns (get_optimal_layout lines1) \<le> columns (get_optimal_layout lines2)
     \<and> font_size (get_optimal_layout lines1) \<ge> font_size (get_optimal_layout lines2)
     \<and> columns (backend_get_optimal_layout lines1) \<le> columns (backend_get_optimal_layout lines2)
     \<and> font_size (backend_get_optimal_layout lines1) \<ge> font_size (backend_get_optimal_layout lines2)"
  unfolding get_optimal_layout_def backend_get_optimal_layout_def Let_def by simp

theorem layout_monotonic_witness:
  "length (replicate 20 (lit ''la'')) \<le> length (replicate 60 (lit ''la''))
   \<and> columns (get_optimal_layout (replicate 20 (lit ''la'')))
       \<le> columns (get_optimal_layout (replicate 60 (lit ''la'')))
   \<and> font_size (get_optimal_layout (replicate 20 (lit ''la'')))
       \<ge> font_size (get_optimal_layout (replicate 60 (lit ''la'')))
   \<and> columns (backend_get_optimal_layout (replicate 20 (lit ''la'')))
       \<le> columns (backend_get_optimal_layout (replicate 60 (lit ''la'')))
   \<and> font_size (backend_get_optimal_layout (replicate 20 (lit ''la'')))
       \<ge> font_size (backend_get_optimal_layout (replicate 60 (lit ''la'')))"
  using layout_monotonic[of "replicate 20 (lit ''la'')" "replicate 60 (lit ''la'')"] by simp

subsection \<open>Right-to-left detection is script detection\<close>

text \<open>
  Claim C8.  \<open>is_hebrew\<close> holds of a string exactly when the string has a character in the
  range U+0590 to U+05FF.  The right-to-left flag of a slide is a function of this
  predicate on the title and on the lyric lines only: in \<open>create_lyrics_pptx.py\<close> the title
  is Hebrew or at least two of the first five lines are, in \<open>webapp/backend/main.py\<close> the
  title is Hebrew; two songs whose titles and lines have the same \<open>is_hebrew\<close> values get
  the same flag.
\<close>

theorem is_hebrew_script_detection:
  "(is_hebrew t \<longleftrightarrow> (\<exists>c\<in>set t. 0x0590 \<le> c \<and> c \<le> 0x05FF))
   \<and> (add_lyrics_slide_is_rtl title lyrics_lines
        \<longleftrightarrow> is_hebrew title \<or> 2 \<le> length (filter is_hebrew (take 5 lyrics_lines)))
   \<and> (generate_pptx_is_rtl title lyrics_lines \<longleftrightarrow> is_hebrew title)
   \<and> (is_hebrew title = is_hebrew title' \<and> map is_hebrew lyrics_lines = map is_hebrew lyrics_lines'
        \<longrightarrow> add_lyrics_slide_is_rtl title lyrics_lines = add_lyrics_slide_is_rtl title' lyrics_lines'
          \<and> generate_pptx_is_rtl title lyrics_lines = generate_pptx_is_rtl title' lyrics_lines')"
proof -
  have "length (filter is_hebrew (take 5 lyrics_lines)) = length (filter is_hebrew (take 5 lyrics_lines'))"
    if "map is_hebrew lyrics_lines = map is_hebrew lyrics_lines'"
    using that by (rule count_from_flags)
  then have same: "map is_hebrew lyrics_lines = map is_hebrew lyrics_lines' \<longrightarrow>
      length (filter is_hebrew (take 5 lyrics_lines)) = length (filter is_hebrew (take 5 lyrics_lines'))"
    by blast
  have a: "is_hebrew t \<longleftrightarrow> (\<exists>c\<in>set t. 0x0590 \<le> c \<and> c \<le> 0x05FF)"
    by (rule is_hebrew_iff)
  have b: "add_lyrics_slide_is_rtl title lyrics_lines
        \<longleftrightarrow> is_hebrew title \<or> 2 \<le> length (filter is_hebrew (take 5 lyrics_lines))"
    unfolding add_lyrics_slide_is_rtl_def by (rule is_hebrew_song_eq)
  have c: "generate_pptx_is_rtl title lyrics_lines \<longleftrightarrow> is_hebrew title"
    unfolding generate_pptx_is_rtl_def ..
  have d: "is_hebrew title = is_hebrew title' \<and> map is_hebrew lyrics_lines = map is_hebrew lyrics_lines'
        \<longrightarrow> add_lyrics_slide_is_rtl title lyrics_lines = add_lyrics_slide_is_rtl title' lyrics_lines'
          \<and> generate_pptx_is_rtl title lyrics_lines = generate_pptx_is_rtl title' lyrics_lines'"
    unfolding add_lyrics_slide_is_rtl_def generate_pptx_is_rtl_def is_hebrew_song_eq
    using same by auto
  from a b c d show ?thesis by blast
qed

theorem is_hebrew_script_detection_witness:
  "is_hebrew [1513, 1500, 1493, 1501] \<and> \<not> is_hebrew (lit ''hello'')
   \<and> add_lyrics_slide_is_rtl (lit ''song'') [[1513], lit ''la'', [1500]]
   \<and> \<not> generate_pptx_is_rtl (lit ''song'') [[1513], lit ''la'', [1500]]"
  using is_hebrew_script_detection[of "[1513, 1500, 1493, 1501]" "lit ''song''" "[[1513], lit ''la'', [1500]]" "lit ''song''" "[[1513], lit ''la'', [1500]]"]
    is_hebrew_script_detection[of "lit ''hello''" "lit ''song''" "[]" "lit ''song''" "[]"]
  by (simp add: lit_def)

subsection \<open>Sanitized file names\<close>

text \<open>
  Claim C10.  For every name, \<open>sanitize_filename\<close> returns a string of at most 100
  characters that contains no space and none of the characters
  \<^verbatim>\<open>< > : " / \ | ? *\<close>.
\<close>

theorem sanitize_filename_safe:
  "length (sanitize_filename name) \<le> 100
   \<and> SPACE \<notin> set (sanitize_filename name)
   \<and> set (sanitize_filename name) \<inter> set INVALID_FILENAME_CHARS = {}"
proof -
  let ?a = "filter (\<lambda>c. c \<notin> set INVALID_FILENAME_CHARS) name"
  let ?b = "replace_char SPACE (lit ''_'') ?a"
  have res: "sanitize_filename name = take 100 ?b"
    unfolding sanitize_filename_def Let_def ..
  have b: "set ?b \<subseteq> (set ?a - {SPACE}) \<union> {UNDERSCORE}"
    using replace_char_set[of SPACE "lit ''_''" ?a] by (simp add: lit_def UNDERSCORE_def)
  have sub: "set (sanitize_filename name) \<subseteq> set ?b"
    unfolding res by (rule set_take_subset)
  have "SPACE \<notin> set ?b"
    using b by (auto simp: SPACE_def UNDERSCORE_def)
  moreover have "set ?b \<inter> set INVALID_FILENAME_CHARS = {}"
    using b by (auto simp: UNDERSCORE_def INVALID_FILENAME_CHARS_def)
  moreover have "length (sanitize_filename name) \<le> 100"
    unfolding res by simp
  ultimately show ?thesis using sub by blast
qed

subsection \<open>Sections are the maximal runs of non-blank lines\<close>

text \<open>
  Claim C6.  \<open>split_into_sections\<close> returns the maximal runs of non-blank lines of its
  input, in order: no returned section is empty, every line of every returned section has
  a non-empty \<open>strip\<close>, the sections concatenated are the input lines with a non-empty
  \<open>strip\<close>, in their order, and the list of sections is the list of maximal runs.
\<close>

theorem split_into_sections_maximal_runs:
  "[] \<notin> set (split_into_sections lines)
   \<and> (\<forall>section \<in> set (split_into_sections lines). \<forall>line \<in> set section. strip line \<noteq> [])
   \<and> concat (split_into_sections lines) = filter (\<lambda>line. strip line \<noteq> []) lines
   \<and> split_into_sections lines = maximal_runs_spec lines"
proof -
  have c: "concat (split_into_sections lines) = filter (\<lambda>line. strip line \<noteq> []) lines"
    unfolding split_into_sections_runs maximal_runs_concat blank_def ..
  have "\<forall>section \<in> set (split_into_sections lines). \<forall>line \<in> set section. strip line \<noteq> []"
  proof (intro ballI)
    fix sec line
    assume "sec \<in> set (split_into_sections lines)" "line \<in> set sec"
    then have "line \<in> set (concat (split_into_sections lines))" by auto
    then show "strip line \<noteq> []" unfolding c by simp
  qed
  with c show ?thesis
    by (simp add: split_into_sections_runs maximal_runs_nonempty)
qed

theorem split_into_sections_maximal_runs_witness:
  "split_into_sections [lit ''a'', lit ''b'', [], lit '' '', lit ''c'', []]
     = [[lit ''a'', lit ''b''], [lit ''c'']]
   \<and> [lit ''a'', lit ''b''] \<in> set (split_into_sections [lit ''a'', lit ''b'', [], lit '' '', lit ''c'', []])
   \<and> lit ''b'' \<in> set [lit ''a'', lit ''b''] \<and> strip (lit ''b'') \<noteq> []
   \<and> concat (split_into_sections [lit ''a'', lit ''b'', [], lit '' '', lit ''c'', []])
       = filter (\<lambda>line. strip line \<noteq> []) [lit ''a'', lit ''b'', [], lit '' '', lit ''c'', []]"
  using split_into_sections_maximal_runs[of "[lit ''a'', lit ''b'', [], lit '' '', lit ''c'', []]"]
  by (simp add: lit_def blank_def strip_def is_space_def)

subsection \<open>Section colors by position\<close>

text \<open>
  Claim C7.  The output of \<open>assign_section_colors\<close> is, section by section, the lines of
  the i-th section (from 0) each paired with the color at index \<open>i mod 6\<close> of the palette,
  followed, for every section but the last, by one empty line with the first color of the
  palette; the palette has 6 colors.
\<close>

theorem assign_section_colors_by_position:
  "assign_section_colors sections =
     concat (map (\<lambda>i. map (\<lambda>line. (line, SECTION_COLORS ! (i mod 6))) (sections ! i)
                        @ (if i + 1 < length sections then [([], SECTION_COLORS ! 0)] else []))
                 [0..<length sections])
   \<and> length SECTION_COLORS = 6"
proof -
  let ?g = "\<lambda>p. map (\<lambda>line. (line, SECTION_COLORS ! (fst p mod 6))) (snd p)
               @ (if Suc (fst p) < length sections then [([], SECTION_COLORS ! 0)] else [])"
  have "colors_step (length sections) = (\<lambda>acc p. acc @ ?g p)"
    by (intro ext) (rule colors_step_append)
  then have "assign_section_colors sections = concat (map ?g (enumerate 0 sections))"
    unfolding assign_section_colors_def by (simp add: foldl_append_blocks)
  also have "\<dots> = concat (map (\<lambda>i. ?g (i, sections ! i)) [0..<length sections])"
    by (simp only: map_enumerate_index)
  finally show ?thesis
    by (simp add: SECTION_COLORS_def)
qed

theorem assign_section_colors_by_position_witness:
  "assign_section_colors [[lit ''a'', lit ''b''], [lit ''c''], [lit ''d'']] =
     [(lit ''a'', RGBColor 240 240 255), (lit ''b'', RGBColor 240 240 255),
      ([], RGBColor 240 240 255),
      (lit ''c'', RGBColor 255 220 180),
      ([], RGBColor 240 240 255),
      (lit ''d'', RGBColor 180 255 200)]"
  using assign_section_colors_by_position[of "[[lit ''a'', lit ''b''], [lit ''c''], [lit ''d'']]"]
  by (simp add: SECTION_COLORS_def upt_conv_Cons)

subsection \<open>The lyric lines of a parsed file\<close>

text \<open>
  The file content \<^verbatim>\<open>,# x\<close> has one line, which does not start with \<^verbatim>\<open># \<close> and so is
  kept as a lyric line; with its comma removed the returned line is \<^verbatim>\<open># x\<close>, which does
  start with \<^verbatim>\<open># \<close>.
\<close>

theorem parse_lyrics_file_counterexample:
  "snd (parse_lyrics_file (lit ''song'') (lit '',# x'')) = [lit ''# x'']
   \<and> startswith (lit ''# x'') (lit ''# '')"
  by (simp add: parse_lyrics_file_lines lit_def strip_def is_space_def NEWLINE_def
      startswith_def clean_punctuation_filter COMMA_def PERIOD_def blank_def)

text \<open>
  Claim C9, as amended.  Every lyric line returned by \<open>parse_lyrics_file\<close> contains no
  comma and no period and is the cleaned form of a line of the stripped content that does
  not start with \<^verbatim>\<open># \<close>; when the returned list is not empty, its first and its last
  line have a non-empty \<open>strip\<close>; and the returned list is the list of the cleaned
  lines that do not start with \<^verbatim>\<open># \<close>, with the blank lines at both ends removed and
  the blank lines in between kept.
\<close>

theorem parse_lyrics_file_lines_clean:
  "(\<forall>line \<in> set (snd (parse_lyrics_file stem content)).
       COMMA \<notin> set line \<and> PERIOD \<notin> set line
       \<and> (\<exists>raw \<in> set (split_on NEWLINE (strip content)).
             \<not> startswith raw (lit ''# '') \<and> line = clean_punctuation raw))
   \<and> (snd (parse_lyrics_file stem content) \<noteq> [] \<longrightarrow>
         strip (hd (snd (parse_lyrics_file stem content))) \<noteq> []
         \<and> strip (last (snd (parse_lyrics_file stem content))) \<noteq> [])
   \<and> snd (parse_lyrics_file stem content)
       = rev (dropWhile blank (rev (dropWhile blank
           (map clean_punctuation
              (filter (\<lambda>l. \<not> startswith l (lit ''# '')) (split_on NEWLINE (strip content)))))))"
proof -
  let ?raw = "filter (\<lambda>l. \<not> startswith l (lit ''# '')) (split_on NEWLINE (strip content))"
  let ?ls = "snd (parse_lyrics_file stem content)"
  have eq: "?ls = rev (dropWhile blank (rev (dropWhile blank (map clean_punctuation ?raw))))"
    by (rule parse_lyrics_file_lines)
  have sub: "set ?ls \<subseteq> set (map clean_punctuation ?raw)"
    unfolding eq by (rule trim_subset)
  have a: "\<forall>line \<in> set ?ls.
       COMMA \<notin> set line \<and> PERIOD \<notin> set line
       \<and> (\<exists>raw \<in> set (split_on NEWLINE (strip content)).
             \<not> startswith raw (lit ''# '') \<and> line = clean_punctuation raw)"
  proof
    fix line
    assume "line \<in> set ?ls"
    then have "line \<in> set (map clean_punctuation ?raw)" using sub by blast
    then obtain raw where "raw \<in> set ?raw" "line = clean_punctuation raw" by auto
    then show "COMMA \<notin> set line \<and> PERIOD \<notin> set line
       \<and> (\<exists>raw \<in> set (split_on NEWLINE (strip content)).
             \<not> startswith raw (lit ''# '') \<and> line = clean_punctuation raw)"
      by (auto simp: clean_punctuation_set)
  qed
  have b: "?ls \<noteq> [] \<longrightarrow> strip (hd ?ls) \<noteq> [] \<and> strip (last ?ls) \<noteq> []"
  proof
    assume "?ls \<noteq> []"
    then have "rev (dropWhile blank (rev (dropWhile blank (map clean_punctuation ?raw)))) \<noteq> []"
      using eq by simp
    then have "\<not> blank (hd (rev (dropWhile blank (rev (dropWhile blank (map clean_punctuation ?raw))))))
         \<and> \<not> blank (last (rev (dropWhile blank (rev (dropWhile blank (map clean_punctuation ?raw))))))"
      by (rule trim_ends)
    then show "strip (hd ?ls) \<noteq> [] \<and> strip (last ?ls) \<noteq> []"
      unfolding eq blank_def .
  qed
  from a b eq show ?thesis by blast
qed

theorem parse_lyrics_file_lines_clean_witness:
  "snd (parse_lyrics_file (lit ''my_song'')
          ([10] @ lit ''# T  '' @ [10, 10] @ lit ''a, b.'' @ [10, 10] @ lit ''c'' @ [10, 32, 10]))
     = [lit ''a b'', [], lit ''c'']
   \<and> lit ''a b'' \<in> set [lit ''a b'', [], lit ''c'']
   \<and> COMMA \<notin> set (lit ''a b'') \<and> PERIOD \<notin> set (lit ''a b'')
   \<and> lit ''a, b.'' \<in> set (split_on NEWLINE
         (strip ([10] @ lit ''# T  '' @ [10, 10] @ lit ''a, b.'' @ [10, 10] @ lit ''c'' @ [10, 32, 10])))
   \<and> \<not> startswith (lit ''a, b.'') (lit ''# '')
   \<and> lit ''a b'' = clean_punctuation (lit ''a, b.'')
   \<and> strip (hd [lit ''a b'', [], lit ''c'']) \<noteq> []
   \<and> strip (last [lit ''a b'', [], lit ''c'']) \<noteq> []"
  using parse_lyrics_file_lines_clean[of "lit ''my_song''"
      "[10] @ lit ''# T  '' @ [10, 10] @ lit ''a, b.'' @ [10, 10] @ lit ''c'' @ [10, 32, 10]"]
  by (simp add: lit_def strip_def is_space_def NEWLINE_def
      startswith_def clean_punctuation_filter COMMA_def PERIOD_def blank_def)

end
